theory Spec2Isabelle
  imports Complex_Main
begin

section \<open>Data model of scrape.py\<close>

text \<open>
  The three dataclasses of the scraper. A Python \<open>dict[str, int]\<close> is an association
  list in insertion order (the report iterates over it in that order); the entries of
  \<open>Stats.articles\<close> are the dicts \<open>{"date": ..., "title": ...}\<close>, kept as association
  lists too. Python integers are unbounded, hence \<open>int\<close>. The field \<open>id\<close> of \<open>Post\<close>
  is \<open>post_id\<close> here.
\<close>

record Post =
  post_id :: string
  title :: string
  content :: string
  entry_date :: string
  content_html :: string
  year :: string

record Stats =
  articles_per_year :: "(string \<times> int) list"
  total_articles :: int
  articles :: "(string \<times> string) list list"

record CrawlState =
  urls_to_crawl :: "string list"
  crawled_urls :: "string set"
  errors_404 :: "string list"

section \<open>update_stats\<close>

text \<open>\<open>d[k] += 1\<close> on a key that is present: the first entry for the key is incremented.\<close>

fun dict_incr :: "(string \<times> int) list \<Rightarrow> string \<Rightarrow> (string \<times> int) list" where
  "dict_incr [] k = []"
| "dict_incr ((k', c) # d) k = (if k' = k then (k', c + 1) # d else (k', c) # dict_incr d k)"

text \<open>
  Lines 262 to 264: a year that is not yet a key is inserted with count 0 (a new key
  goes to the end of the dict), then the count of the year is incremented.
\<close>

definition count_year :: "(string \<times> int) list \<Rightarrow> string \<Rightarrow> (string \<times> int) list" where
  "count_year d y = dict_incr (if y \<notin> fst ` set d then d @ [(y, 0)] else d) y"

text \<open>The body of the \<open>for post in posts\<close> loop, and the loop.\<close>

definition add_post :: "Stats \<Rightarrow> Post \<Rightarrow> Stats" where
  "add_post s p =
     s\<lparr>articles_per_year := count_year (articles_per_year s) (year p),
       articles := articles s @ [[(''date'', entry_date p), (''title'', title p)]]\<rparr>"

fun add_posts :: "Stats \<Rightarrow> Post list \<Rightarrow> Stats" where
  "add_posts s [] = s"
| "add_posts s (p # ps) = add_posts (add_post s p) ps"

definition update_stats :: "Stats \<Rightarrow> Post list \<Rightarrow> Stats" where
  "update_stats s posts =
     (let s1 = add_posts s posts
      in s1\<lparr>total_articles := total_articles s1 + int (length posts)\<rparr>)"

text \<open>\<open>sum(stats.articles_per_year.values())\<close>.\<close>

definition sum_values :: "(string \<times> int) list \<Rightarrow> int" where
  "sum_values d = sum_list (map snd d)"

section \<open>The libraries the scraper calls\<close>

text \<open>The exception classes that the code and its libraries distinguish.\<close>

datatype error =
    HTTPError | ConnectionError | Timeout | TooManyRedirects | RequestException
  | MaxRetryError | RetryError | ValueError | AttributeError | IndexError | KeyError
  | OverflowError | OSError

text \<open>
  The functions of the Python standard library and of third-party packages that the
  scraper calls are parameters of the model; every theorem below holds for whatever
  they compute.
  \<^item> \<open>urlparse_query url\<close> is \<open>urlparse(url).query\<close>.
  \<^item> \<open>parse_qs q name\<close> is the list that \<open>parse_qs(q)\<close> holds under \<open>name\<close>, if any.
    \<open>parse_qs\<close> creates a key together with its first value, so the list is never empty:
    it is given as its first element and the remaining ones.
  \<^item> \<open>py_int s\<close> is \<open>int(s)\<close>, \<open>None\<close> when it raises ValueError.
  \<^item> \<open>http_date_delay s\<close> is
    \<open>time.mktime(time.strptime(s, "%a, %d %b %Y %H:%M:%S %Z")) - time.time()\<close>, the
    number that the float denotes; \<open>None\<close> when \<open>strptime\<close> raises ValueError.
  \<^item> \<open>fromisoformat s\<close> is \<open>datetime.fromisoformat(s)\<close>, \<open>None\<close> when it raises
    ValueError; \<open>strftime d\<close> is \<open>d.strftime("%Y-%m-%d %H:%M")\<close>.
  \<^item> \<open>md html\<close> is \<open>markdownify(html)\<close>; \<open>str_int n\<close> is \<open>str(n)\<close>.
  \<^item> \<open>urlparse_raises url\<close> holds when \<open>urlparse(url)\<close> raises ValueError, as it does
    on an authority with unbalanced square brackets. Such a URL has no key:
    \<open>urlparse_query\<close> means something only where \<open>urlparse_raises\<close> is false.
  \<^item> \<open>open_error name\<close> is the exception (an OSError, such as FileNotFoundError) that
    opening the file \<open>name\<close> in the output directory for writing raises, if any: it
    does for a name with a \<open>/\<close> that points into a missing directory and for a name
    that is too long.
\<close>

record 'dt pylib =
  urlparse_query :: "string \<Rightarrow> string"
  parse_qs :: "string \<Rightarrow> string \<Rightarrow> (string \<times> string list) option"
  py_int :: "string \<Rightarrow> int option"
  http_date_delay :: "string \<Rightarrow> real option"
  fromisoformat :: "string \<Rightarrow> 'dt option"
  strftime :: "'dt \<Rightarrow> string"
  md :: "string \<Rightarrow> string"
  str_int :: "int \<Rightarrow> string"
  urlparse_raises :: "string \<Rightarrow> bool"
  open_error :: "string \<Rightarrow> error option"

section \<open>Documents\<close>

text \<open>
  A fetched document, as far as \<open>extract_posts\<close> and \<open>extract_archive_links\<close> read it.
  \<^item> \<open>content_articles\<close>: \<open>None\<close> when there is no \<open>div\<close> with id \<open>content\<close>; otherwise its
    \<open>article\<close> elements that have an id.
  \<^item> \<open>archive_hrefs\<close>: \<open>None\<close> when there is no \<open>aside\<close> with id \<open>flexo-archives-3\<close>;
    otherwise the \<open>href\<close> of each of its links.
  Of an article: its id, the stripped text of its bookmark link if it has one, the
  string of its \<open>entry-content\<close> div if it has one, and, when its \<open>entry-meta\<close> footer has
  an \<open>entry-date\<close> time tag, the value of
  \<open>time_tag.get("datetime", time_tag.get_text(strip=True))\<close>, which BeautifulSoup types
  as a string or a list of strings.
\<close>

datatype attr_value = Str string | StrList "string list"

record Article =
  art_id :: string
  bookmark :: "string option"
  entry_content :: "string option"
  entry_time :: "attr_value option"

record Page =
  content_articles :: "Article list option"
  archive_hrefs :: "string list option"

section \<open>extract_posts, extract_archive_links, extract_unique_part\<close>

text \<open>Lines 163 to 168: the date of an article; \<open>date_value[0]\<close> raises on an empty list.\<close>

definition article_date :: "Article \<Rightarrow> error + string" where
  "article_date a =
     (case entry_time a of
        None \<Rightarrow> Inr []
      | Some (Str s) \<Rightarrow> Inr s
      | Some (StrList []) \<Rightarrow> Inl IndexError
      | Some (StrList (s # _)) \<Rightarrow> Inr s)"

text \<open>Lines 150 to 181: the post of one article.\<close>

definition article_post :: "'dt pylib \<Rightarrow> Article \<Rightarrow> error + Post" where
  "article_post lib a =
     (let ttl = (case bookmark a of Some t \<Rightarrow> t | None \<Rightarrow> ''No Title'');
          html = (case entry_content a of Some b \<Rightarrow> b | None \<Rightarrow> []);
          content_md = md lib html
      in case article_date a of
           Inl e \<Rightarrow> Inl e
         | Inr date \<Rightarrow>
             Inr \<lparr>post_id = art_id a, title = ttl, content = content_md, entry_date = date,
                  content_html = html,
                  year = (if date \<noteq> [] then take 4 date else ''unknown'')\<rparr>)"

fun article_posts :: "'dt pylib \<Rightarrow> Article list \<Rightarrow> error + Post list" where
  "article_posts lib [] = Inr []"
| "article_posts lib (a # as) =
     (case article_post lib a of
        Inl e \<Rightarrow> Inl e
      | Inr p \<Rightarrow> (case article_posts lib as of Inl e \<Rightarrow> Inl e | Inr ps \<Rightarrow> Inr (p # ps)))"

definition extract_posts :: "'dt pylib \<Rightarrow> Page \<Rightarrow> error + Post list" where
  "extract_posts lib soup =
     (case content_articles soup of None \<Rightarrow> Inr [] | Some arts \<Rightarrow> article_posts lib arts)"

definition extract_archive_links :: "Page \<Rightarrow> string list" where
  "extract_archive_links soup = (case archive_hrefs soup of None \<Rightarrow> [] | Some links \<Rightarrow> links)"

text \<open>Lines 216 to 220: \<open>query_params.get("m", [""])[0]\<close>.\<close>

definition extract_unique_part :: "'dt pylib \<Rightarrow> string \<Rightarrow> string" where
  "extract_unique_part lib url =
     (let query_params = parse_qs lib (urlparse_query lib url)
      in fst (case query_params ''m'' of None \<Rightarrow> ([], []) | Some vs \<Rightarrow> vs))"

section \<open>fetch_page and its retry decorator\<close>

text \<open>
  What \<open>requests.get(url, timeout=60)\<close> does on one attempt: it returns a response or
  raises. Of a response the code reads the status, the \<open>Retry-After\<close> header and the
  body, which \<open>BeautifulSoup\<close> parses into the document. A raised exception has a class
  and the \<open>response\<close> attribute of \<open>requests\<close> exceptions.
\<close>

record Response =
  status_code :: nat
  retry_after :: "string option"
  soup :: Page

datatype exn = Exn (cls: error) (response: "Response option")

datatype http_result = Got Response | Fails exn

text \<open>
  \<open>isinstance(e, requests.RequestException)\<close> and \<open>isinstance(e, requests.HTTPError)\<close>:
  HTTPError, ConnectionError, Timeout and TooManyRedirects are subclasses of
  RequestException.
\<close>

definition is_RequestException :: "error \<Rightarrow> bool" where
  "is_RequestException c =
     (c = HTTPError \<or> c = ConnectionError \<or> c = Timeout \<or> c = TooManyRedirects
      \<or> c = RequestException)"

definition is_HTTPError :: "error \<Rightarrow> bool" where
  "is_HTTPError c = (c = HTTPError)"

text \<open>
  Lines 123 to 127, the handler of HTTPError: a 404 returns None, anything else is
  raised again. Reading \<open>e.response.status_code\<close> of an exception without a response
  raises AttributeError.
\<close>

definition on_http_error :: "exn \<Rightarrow> exn + Page option" where
  "on_http_error e =
     (case response e of
        None \<Rightarrow> Inl (Exn AttributeError None)
      | Some r \<Rightarrow> if status_code r = 404 then Inr None else Inl e)"

text \<open>
  Lines 118 to 130, the body of \<open>fetch_page\<close> on one attempt.
  \<open>response.raise_for_status()\<close> raises HTTPError, carrying the response, for a status
  from 400 to 599. The second handler logs and raises the exception again.
\<close>

definition fetch_attempt :: "http_result \<Rightarrow> exn + Page option" where
  "fetch_attempt r =
     (case r of
        Got resp \<Rightarrow>
          if 400 \<le> status_code resp \<and> status_code resp < 600
          then on_http_error (Exn HTTPError (Some resp))
          else Inr (Some (soup resp))
      | Fails e \<Rightarrow> if is_HTTPError (cls e) then on_http_error e else Inl e)"

text \<open>What a call of \<open>fetch_page\<close> does that a caller can observe besides its result.\<close>

datatype event = Attempt nat | Sleep real

text \<open>
  \<open>time.sleep(wait_time)\<close>. It raises ValueError on a negative duration. It converts
  the duration to a signed 64-bit number of nanoseconds and raises OverflowError when
  that does not fit: \<open>sleep_max\<close> is the largest duration that fits, a little above
  9223372036 seconds. The rounding of a float within a microsecond of that limit is
  not modelled.
\<close>

definition sleep_max :: real where
  "sleep_max = (2 ^ 63 - 1) / 10 ^ 9"

definition sleep_for :: "real \<Rightarrow> error + event list" where
  "sleep_for wait_time =
     (if wait_time < 0 then Inl ValueError
      else if sleep_max < wait_time then Inl OverflowError
      else Inr [Sleep wait_time])"

text \<open>
  Lines 86 to 104, the \<open>before_sleep\<close> hook. The outcome is never None when tenacity
  calls the hook. An exception of \<open>time.sleep\<close> or of \<open>strptime\<close> leaves the hook.
\<close>

definition wait_if_retry_after :: "'dt pylib \<Rightarrow> exn \<Rightarrow> error + event list" where
  "wait_if_retry_after lib e =
     (if is_RequestException (cls e) then
        (case response e of
           None \<Rightarrow> Inr []
         | Some resp \<Rightarrow>
             (case retry_after resp of
                None \<Rightarrow> Inr []
              | Some h \<Rightarrow>
                  if h = [] then Inr []
                  else (case py_int lib h of
                          Some n \<Rightarrow> sleep_for (of_int n)
                        | None \<Rightarrow>
                            (case http_date_delay lib h of
                               None \<Rightarrow> Inl ValueError
                             | Some d \<Rightarrow> sleep_for d))))
      else Inr [])"

text \<open>
  The arguments of the decorator, lines 107 to 115, with the meaning tenacity gives them:
  \<open>stop_after_attempt(n)\<close> stops once the number of the attempt that just failed reaches
  \<open>n\<close>; \<open>wait_exponential(multiplier, min, max)\<close> waits
  \<open>multiplier * 2 ** (attempt_number - 1)\<close>, clamped between \<open>min\<close> and \<open>max\<close>; the two
  \<open>retry_if\<close> predicates are joined by \<open>&\<close>. Attempts are numbered from 1.
\<close>

definition stop_after_attempt :: "nat \<Rightarrow> nat \<Rightarrow> bool" where
  "stop_after_attempt max_attempt_number attempt_number =
     (attempt_number \<ge> max_attempt_number)"

definition wait_exponential :: "real \<Rightarrow> real \<Rightarrow> real \<Rightarrow> nat \<Rightarrow> real" where
  "wait_exponential multiplier mn mx attempt_number =
     max (max 0 mn) (min (multiplier * 2 ^ (attempt_number - 1)) mx)"

definition fetch_stop :: "nat \<Rightarrow> bool" where
  "fetch_stop = stop_after_attempt 5"

definition fetch_wait :: "nat \<Rightarrow> real" where
  "fetch_wait = wait_exponential 5 30 300"

definition fetch_retry :: "exn \<Rightarrow> bool" where
  "fetch_retry e = (is_RequestException (cls e) \<and> \<not> is_HTTPError (cls e))"

text \<open>
  The loop of tenacity around the body, from attempt \<open>attempt_number\<close> on; \<open>web k\<close> is what
  the network does on attempt \<open>k\<close>. After a failed attempt: an exception that the retry
  predicate rejects is raised as it is; when the stop condition holds RetryError is
  raised; otherwise the wait is computed, the \<open>before_sleep\<close> hook runs, tenacity sleeps
  for the computed wait, and the next attempt starts.
\<close>

function fetch_page_from ::
  "'dt pylib \<Rightarrow> (nat \<Rightarrow> http_result) \<Rightarrow> nat \<Rightarrow> (exn + Page option) \<times> event list" where
  "fetch_page_from lib web attempt_number =
     (case fetch_attempt (web attempt_number) of
        Inr v \<Rightarrow> (Inr v, [Attempt attempt_number])
      | Inl e \<Rightarrow>
          if \<not> fetch_retry e then (Inl e, [Attempt attempt_number])
          else if fetch_stop attempt_number
          then (Inl (Exn RetryError None), [Attempt attempt_number])
          else (let sleep = fetch_wait attempt_number
                in case wait_if_retry_after lib e of
                     Inl err \<Rightarrow> (Inl (Exn err None), [Attempt attempt_number])
                   | Inr slept \<Rightarrow>
                       (let (res, evs) = fetch_page_from lib web (Suc attempt_number)
                        in (res, Attempt attempt_number # slept @ Sleep sleep # evs))))"
  by pat_completeness auto
termination
  by (relation "measure (\<lambda>(lib, web, attempt_number). 5 - attempt_number)")
    (auto simp: fetch_stop_def stop_after_attempt_def)

definition fetch_page :: "'dt pylib \<Rightarrow> (nat \<Rightarrow> http_result) \<Rightarrow> (exn + Page option) \<times> event list" where
  "fetch_page lib web = fetch_page_from lib web 1"

text \<open>The attempts and the total time slept in a trace.\<close>

fun attempts :: "event list \<Rightarrow> nat list" where
  "attempts [] = []"
| "attempts (Attempt k # evs) = k # attempts evs"
| "attempts (Sleep d # evs) = attempts evs"


section \<open>Files\<close>

text \<open>
  The files the scraper writes. A JSON file is held as the value that \<open>json.load\<close>
  gives back from it (the set of crawled keys is written as a list and read back as a
  set); a text file as its content; \<open>None\<close> is a file that does not exist. The four
  files with fixed names are taken to open for writing, and writing to an open file
  is taken to succeed. The name of a file for a post is built from the post, and
  opening it can fail.
\<close>

record Disk =
  state_file :: "CrawlState option"
  stats_file :: "Stats option"
  dates_titles_file :: "string option"
  errors_file :: "string option"
  blog_posts :: "string \<Rightarrow> string option"

text \<open>\<open>s.replace(a, b)\<close> for single characters.\<close>

definition replace_char :: "char \<Rightarrow> char \<Rightarrow> string \<Rightarrow> string" where
  "replace_char a b s = map (\<lambda>c. if c = a then b else c) s"

text \<open>
  Lines 185 to 203. The Markdown file is opened and written first, then the HTML file;
  an exception of either \<open>open\<close> leaves the function with what was written before.
\<close>

definition save_to_files :: "'dt pylib \<Rightarrow> Post \<Rightarrow> Disk \<Rightarrow> Disk \<times> error option" where
  "save_to_files lib post d =
     (let date_str = take 10 (entry_date post);
          stem = date_str @ ''-'' @ post_id post @ ''-''
                   @ replace_char (CHR ''/'') (CHR ''-'')
                       (replace_char (CHR '' '') (CHR ''_'') (title post));
          filename_md = stem @ ''.md'';
          filename_html = stem @ ''.html''
      in case open_error lib filename_md of
           Some e \<Rightarrow> (d, Some e)
         | None \<Rightarrow>
             (let d1 = d\<lparr>blog_posts := (blog_posts d)
                          (filename_md \<mapsto> ''# '' @ title post @ [CHR 10, CHR 10] @ content post)\<rparr>
              in case open_error lib filename_html of
                   Some e \<Rightarrow> (d1, Some e)
                 | None \<Rightarrow>
                     (d1\<lparr>blog_posts := (blog_posts d1)
                           (filename_html \<mapsto>
                              ''<h1>'' @ title post @ ''</h1>'' @ [CHR 10, CHR 10]
                                @ content_html post)\<rparr>,
                      None)))"

text \<open>Lines 324 and 325: the loop stops at the first post whose files cannot be opened.\<close>

fun save_all_to_files :: "'dt pylib \<Rightarrow> Post list \<Rightarrow> Disk \<Rightarrow> Disk \<times> error option" where
  "save_all_to_files lib [] d = (d, None)"
| "save_all_to_files lib (post # posts) d =
     (case save_to_files lib post d of
        (d1, Some e) \<Rightarrow> (d1, Some e)
      | (d1, None) \<Rightarrow> save_all_to_files lib posts d1)"

text \<open>Lines 223 to 255.\<close>

definition save_state :: "CrawlState \<Rightarrow> Disk \<Rightarrow> Disk" where
  "save_state st d = d\<lparr>state_file := Some st\<rparr>"

definition load_state :: "Disk \<Rightarrow> CrawlState" where
  "load_state d =
     (case state_file d of
        Some st \<Rightarrow> st
      | None \<Rightarrow> \<lparr>urls_to_crawl = [], crawled_urls = {}, errors_404 = []\<rparr>)"

definition save_stats :: "Stats \<Rightarrow> Disk \<Rightarrow> Disk" where
  "save_stats s d = d\<lparr>stats_file := Some s\<rparr>"

definition load_stats :: "Disk \<Rightarrow> Stats" where
  "load_stats d =
     (case stats_file d of
        Some s \<Rightarrow> s
      | None \<Rightarrow> \<lparr>articles_per_year = [], total_articles = 0, articles = []\<rparr>)"

text \<open>
  Lines 269 to 281. The file is opened for writing, so what was written before an
  exception stays in it. \<open>article["date"]\<close> raises KeyError on a dict without the key.
\<close>

definition summary_lines :: "'dt pylib \<Rightarrow> (string \<times> int) list \<Rightarrow> string" where
  "summary_lines lib d =
     concat (map (\<lambda>(y, count). y @ '', '' @ str_int lib count @ '' posts'' @ [CHR 10]) d)"

fun article_lines :: "'dt pylib \<Rightarrow> (string \<times> string) list list \<Rightarrow> string \<times> error option" where
  "article_lines lib [] = ([], None)"
| "article_lines lib (article # rest) =
     (case map_of article ''date'' of
        None \<Rightarrow> ([], Some KeyError)
      | Some d \<Rightarrow>
          (case fromisoformat lib d of
             None \<Rightarrow> ([], Some ValueError)
           | Some date_time \<Rightarrow>
               (case map_of article ''title'' of
                  None \<Rightarrow> ([], Some KeyError)
                | Some t \<Rightarrow>
                    (let (written, err) = article_lines lib rest
                     in (strftime lib date_time @ '' '' @ t @ [CHR 10] @ written, err)))))"

definition save_dates_titles :: "'dt pylib \<Rightarrow> Stats \<Rightarrow> Disk \<Rightarrow> Disk \<times> error option" where
  "save_dates_titles lib s d =
     (let (written, err) = article_lines lib (articles s)
      in (d\<lparr>dates_titles_file :=
              Some (summary_lines lib (articles_per_year s) @ [CHR 10] @ written)\<rparr>, err))"

text \<open>Lines 284 to 288.\<close>

definition save_errors_404 :: "CrawlState \<Rightarrow> Disk \<Rightarrow> Disk" where
  "save_errors_404 st d =
     d\<lparr>errors_file := Some (concat (map (\<lambda>error_url. error_url @ [CHR 10]) (errors_404 st)))\<rparr>"

section \<open>crawl_site\<close>

text \<open>
  The variables of \<open>crawl_site\<close> and the files, and the exception that has left
  \<open>crawl_site\<close>, if any.
\<close>

record Run =
  state :: CrawlState
  stats :: Stats
  disk :: Disk
  raised :: "error option"

text \<open>
  The four saves that end an iteration (lines 313 to 316 and 341 to 344). An exception of
  \<open>save_dates_titles\<close> is not handled: it leaves \<open>crawl_site\<close> after the two saves
  before it.
\<close>

definition save_all :: "'dt pylib \<Rightarrow> Run \<Rightarrow> Run" where
  "save_all lib r =
     (let d1 = save_state (state r) (disk r);
          d2 = save_stats (stats r) d1;
          (d3, err) = save_dates_titles lib (stats r) d2
      in case err of
           Some e \<Rightarrow> r\<lparr>disk := d3, raised := Some e\<rparr>
         | None \<Rightarrow> r\<lparr>disk := save_errors_404 (state r) d3\<rparr>)"

text \<open>Lines 333 to 338, for one link, and the loop over the links.\<close>

definition enqueue_link :: "'dt pylib \<Rightarrow> string \<Rightarrow> CrawlState \<Rightarrow> CrawlState" where
  "enqueue_link lib link st =
     (let unique_link_part = extract_unique_part lib link
      in if unique_link_part \<notin> crawled_urls st \<and> unique_link_part \<notin> set (urls_to_crawl st)
         then st\<lparr>urls_to_crawl := urls_to_crawl st @ [link]\<rparr>
         else st)"

fun enqueue_links :: "'dt pylib \<Rightarrow> string list \<Rightarrow> CrawlState \<Rightarrow> CrawlState" where
  "enqueue_links lib [] st = st"
| "enqueue_links lib (link # links) st = enqueue_links lib links (enqueue_link lib link st)"

text \<open>
  Lines 306 to 309: the page was not found. Only the list of 404 errors is written.
\<close>

definition on_not_found :: "string \<Rightarrow> Run \<Rightarrow> Run" where
  "on_not_found current_url r =
     (let st = (state r)\<lparr>errors_404 := errors_404 (state r) @ [current_url]\<rparr>
      in r\<lparr>state := st, disk := save_errors_404 st (disk r)\<rparr>)"

text \<open>Lines 310 to 317: \<open>fetch_page\<close> raised.\<close>

definition on_fetch_error :: "'dt pylib \<Rightarrow> string \<Rightarrow> Run \<Rightarrow> Run" where
  "on_fetch_error lib current_url r =
     save_all lib (r\<lparr>state := (state r)\<lparr>urls_to_crawl := urls_to_crawl (state r) @ [current_url]\<rparr>\<rparr>)"

text \<open>
  Lines 322 to 344: a document was fetched. A BeautifulSoup object is never false, so
  line 319 does not leave the iteration. Three exceptions leave \<open>crawl_site\<close> before
  the saves: one of \<open>extract_posts\<close>; one of \<open>save_to_files\<close>, before the statistics
  are updated; and the ValueError of \<open>urlparse\<close> on a followup link, after the links
  before it have been handled and before the key is marked as crawled.
\<close>

definition on_document :: "'dt pylib \<Rightarrow> string \<Rightarrow> Page \<Rightarrow> Run \<Rightarrow> Run" where
  "on_document lib unique_part page r =
     (case extract_posts lib page of
        Inl e \<Rightarrow> r\<lparr>raised := Some e\<rparr>
      | Inr posts \<Rightarrow>
          (case save_all_to_files lib posts (disk r) of
             (d1, Some e) \<Rightarrow> r\<lparr>disk := d1, raised := Some e\<rparr>
           | (d1, None) \<Rightarrow>
               (let stats1 = update_stats (stats r) posts;
                    new_links = extract_archive_links page;
                    parsed = takeWhile (\<lambda>link. \<not> urlparse_raises lib link) new_links;
                    st1 = enqueue_links lib parsed (state r)
                in if length parsed < length new_links
                   then r\<lparr>state := st1, stats := stats1, disk := d1, raised := Some ValueError\<rparr>
                   else (let st2 = st1\<lparr>crawled_urls := insert unique_part (crawled_urls st1)\<rparr>
                         in save_all lib (r\<lparr>state := st2, stats := stats1, disk := d1\<rparr>)))))"

text \<open>
  Lines 299 to 344, one iteration of the \<open>while\<close> loop on a non-empty list;
  \<open>web url k\<close> is what the network does on attempt \<open>k\<close> at \<open>url\<close> during this iteration.
  A URL in \<open>urls_to_crawl\<close> is the start URL or has passed \<open>urlparse\<close> on line 333
  before it was appended; the start URL is taken to be one that \<open>urlparse\<close> accepts, so
  line 300 does not raise.
\<close>

definition crawl_step :: "'dt pylib \<Rightarrow> (string \<Rightarrow> nat \<Rightarrow> http_result) \<Rightarrow> Run \<Rightarrow> Run" where
  "crawl_step lib web r =
     (case urls_to_crawl (state r) of
        [] \<Rightarrow> r
      | current_url # rest \<Rightarrow>
          (let r1 = r\<lparr>state := (state r)\<lparr>urls_to_crawl := rest\<rparr>\<rparr>;
               unique_part = extract_unique_part lib current_url
           in if unique_part \<in> crawled_urls (state r1) then r1
              else (case fst (fetch_page lib (web current_url)) of
                      Inr None \<Rightarrow> on_not_found current_url r1
                    | Inl e \<Rightarrow> on_fetch_error lib current_url r1
                    | Inr (Some page) \<Rightarrow> on_document lib unique_part page r1)))"

text \<open>
  The \<open>while\<close> loop, line 298. It need not end (a URL whose fetch keeps failing is put
  back forever), so it runs on fuel: \<open>None\<close> is a loop that has not ended when the fuel
  is used up. \<open>webs i\<close> is the network during iteration \<open>i\<close>.
\<close>

fun crawl_loop ::
  "'dt pylib \<Rightarrow> (nat \<Rightarrow> string \<Rightarrow> nat \<Rightarrow> http_result) \<Rightarrow> nat \<Rightarrow> nat \<Rightarrow> Run \<Rightarrow> Run option" where
  "crawl_loop lib webs 0 i r = (if urls_to_crawl (state r) = [] then Some r else None)"
| "crawl_loop lib webs (Suc fuel) i r =
     (if urls_to_crawl (state r) = [] then Some r
      else (let r' = crawl_step lib (webs i) r
            in if raised r' \<noteq> None then Some r' else crawl_loop lib webs fuel (Suc i) r'))"

text \<open>Lines 291 to 344.\<close>

definition crawl_site ::
  "'dt pylib \<Rightarrow> (nat \<Rightarrow> string \<Rightarrow> nat \<Rightarrow> http_result) \<Rightarrow> nat \<Rightarrow> string \<Rightarrow> Disk \<Rightarrow> Run option" where
  "crawl_site lib webs fuel start_url d =
     (let st = load_state d;
          s = load_stats d;
          st' = (if urls_to_crawl st = [] then st\<lparr>urls_to_crawl := [start_url]\<rparr> else st)
      in crawl_loop lib webs fuel 0 \<lparr>state = st', stats = s, disk = d, raised = None\<rparr>)"

section \<open>A library instance for the examples\<close>

text \<open>
  The examples below run the model on concrete inputs and need concrete library
  functions. These agree with Python on the inputs the examples use: URLs and query
  strings without percent escapes, \<open>+\<close> signs, blank values or control characters,
  the header values \<open>120\<close> and \<open>100000000000000000000\<close>, dates that are empty or well
  formed, URLs without square brackets, and file names that are short and whose only
  \<open>/\<close> would point into a directory that does not exist.
\<close>

definition simple_query :: "string \<Rightarrow> string" where
  "simple_query url =
     drop 1 (dropWhile (\<lambda>c. c \<noteq> CHR ''?'') (takeWhile (\<lambda>c. c \<noteq> CHR ''#'') url))"

fun split_on :: "char \<Rightarrow> string \<Rightarrow> string list" where
  "split_on sep [] = [[]]"
| "split_on sep (c # cs) =
     (if c = sep then [] # split_on sep cs
      else (case split_on sep cs of [] \<Rightarrow> [[c]] | w # ws \<Rightarrow> (c # w) # ws))"

definition simple_pairs :: "string \<Rightarrow> (string \<times> string) list" where
  "simple_pairs q =
     filter (\<lambda>(name, v). v \<noteq> [])
       (map (\<lambda>nv. (takeWhile (\<lambda>c. c \<noteq> CHR ''='') nv, drop 1 (dropWhile (\<lambda>c. c \<noteq> CHR ''='') nv)))
          (split_on (CHR ''&'') q))"

definition simple_parse_qs :: "string \<Rightarrow> string \<Rightarrow> (string \<times> string list) option" where
  "simple_parse_qs q name =
     (case map snd (filter (\<lambda>(n, v). n = name) (simple_pairs q)) of
        [] \<Rightarrow> None
      | v # vs \<Rightarrow> Some (v, vs))"

fun str_nat :: "nat \<Rightarrow> string" where
  "str_nat n =
     (if n < 10 then [char_of (48 + n)] else str_nat (n div 10) @ [char_of (48 + n mod 10)])"

definition sample_lib :: "string pylib" where
  "sample_lib =
     \<lparr>urlparse_query = simple_query,
      parse_qs = simple_parse_qs,
      py_int = (\<lambda>s. if s = ''120'' then Some 120
                    else if s = ''100000000000000000000'' then Some 100000000000000000000
                    else None),
      http_date_delay = (\<lambda>s. None),
      fromisoformat = (\<lambda>s. if length s < 10 then None else Some s),
      strftime = (\<lambda>d. take 10 d @ '' '' @ take 5 (drop 11 d)),
      md = (\<lambda>html. html),
      str_int = (\<lambda>n. if n < 0 then ''-'' @ str_nat (nat (- n)) else str_nat (nat n)),
      urlparse_raises = (\<lambda>url. (CHR ''['' \<in> set url) \<noteq> (CHR '']'' \<in> set url)),
      open_error = (\<lambda>name. if CHR ''/'' \<in> set name \<or> 255 < length name then Some OSError
                           else None)\<rparr>"

section \<open>Predicates on crawl states and fetch results\<close>

text \<open>No URL that waits to be crawled has a key that is already in \<open>crawled_urls\<close>.\<close>

definition frontier_inv :: "'dt pylib \<Rightarrow> CrawlState \<Rightarrow> bool" where
  "frontier_inv lib st =
     (\<forall>u \<in> set (urls_to_crawl st). extract_unique_part lib u \<notin> crawled_urls st)"

text \<open>\<open>fetch_page\<close> returned a document: neither None nor an exception.\<close>

definition is_document :: "exn + Page option \<Rightarrow> bool" where
  "is_document res = (case res of Inr (Some page) \<Rightarrow> True | _ \<Rightarrow> False)"

section \<open>Example inputs\<close>

text \<open>Statistics with one article of 2019, and a post of 2020.\<close>

definition stats_ex :: Stats where
  "stats_ex =
     \<lparr>articles_per_year = [(''2019'', 1)], total_articles = 1,
      articles = [[(''date'', ''2019-03-01T10:00:00''), (''title'', ''First'')]]\<rparr>"

definition post_ex :: Post where
  "post_ex =
     \<lparr>post_id = ''post-7'', title = ''Second'', content = ''text'',
      entry_date = ''2020-05-02T09:30:00'', content_html = ''<div>text</div>'',
      year = ''2020''\<rparr>"

text \<open>A first run: no files, no statistics.\<close>

definition empty_disk :: Disk where
  "empty_disk =
     \<lparr>state_file = None, stats_file = None, dates_titles_file = None, errors_file = None,
      blog_posts = (\<lambda>name. None)\<rparr>"

definition empty_stats :: Stats where
  "empty_stats = \<lparr>articles_per_year = [], total_articles = 0, articles = []\<rparr>"

text \<open>Responses: a page with status 200, a 404, and a page that has only archive links.\<close>

definition ok_response :: "Page \<Rightarrow> http_result" where
  "ok_response page = Got \<lparr>status_code = 200, retry_after = None, soup = page\<rparr>"

definition not_found_response :: http_result where
  "not_found_response =
     Got \<lparr>status_code = 404, retry_after = None,
          soup = \<lparr>content_articles = None, archive_hrefs = None\<rparr>\<rparr>"

definition archive_page :: "string list \<Rightarrow> Page" where
  "archive_page links = \<lparr>content_articles = Some [], archive_hrefs = Some links\<rparr>"

text \<open>
  One pending URL, nothing crawled; the page of that URL lists the URL itself among its
  archive links, as a sidebar with all months does.
\<close>

definition run_self :: Run where
  "run_self =
     \<lparr>state = \<lparr>urls_to_crawl = [''http://blog/?m=201901''], crawled_urls = {}, errors_404 = []\<rparr>,
      stats = empty_stats, disk = empty_disk, raised = None\<rparr>"

definition web_self :: "string \<Rightarrow> nat \<Rightarrow> http_result" where
  "web_self url k = ok_response (archive_page [''http://blog/?m=201901''])"

definition webs_self :: "nat \<Rightarrow> string \<Rightarrow> nat \<Rightarrow> http_result" where
  "webs_self i = web_self"

text \<open>
  Two pending URLs: the first gives 404, the page of the second links to the first.
\<close>

definition run_two :: Run where
  "run_two =
     \<lparr>state = \<lparr>urls_to_crawl = [''http://blog/?m=201903'', ''http://blog/?m=201902''],
               crawled_urls = {''201901''}, errors_404 = []\<rparr>,
      stats = empty_stats, disk = empty_disk, raised = None\<rparr>"

definition web_two :: "string \<Rightarrow> nat \<Rightarrow> http_result" where
  "web_two url k =
     (if url = ''http://blog/?m=201903'' then not_found_response
      else ok_response (archive_page [''http://blog/?m=201903'']))"

definition webs_two :: "nat \<Rightarrow> string \<Rightarrow> nat \<Rightarrow> http_result" where
  "webs_two i = web_two"

text \<open>A run whose state file lists one pending URL, which gives 404.\<close>

definition state_last :: CrawlState where
  "state_last =
     \<lparr>urls_to_crawl = [''http://blog/?m=201903''], crawled_urls = {''201901''}, errors_404 = []\<rparr>"

definition disk_last :: Disk where
  "disk_last = empty_disk\<lparr>state_file := Some state_last\<rparr>"

definition run_last :: Run where
  "run_last = \<lparr>state = state_last, stats = empty_stats, disk = disk_last, raised = None\<rparr>"

text \<open>
  The start URL of the script (line 39), and a state file left by a run that has crawled
  it: nothing is pending and the empty key is among the crawled keys.
\<close>

definition seed_url :: string where
  "seed_url = ''https://web.archive.org/web/20240910152712/http://reinderbruinsma.com/''"

definition state_resumed :: CrawlState where
  "state_resumed = \<lparr>urls_to_crawl = [], crawled_urls = {[], ''201901''}, errors_404 = []\<rparr>"

definition disk_resumed :: Disk where
  "disk_resumed = empty_disk\<lparr>state_file := Some state_resumed\<rparr>"

text \<open>
  Networks for one call of \<open>fetch_page\<close>: every attempt fails to connect; every attempt
  gets status 500; every attempt gets status 503 with \<open>Retry-After: 120\<close>; the first
  attempt exceeds the redirect limit on a response with \<open>Retry-After: 120\<close> and the
  second succeeds.
\<close>

definition web_down :: "nat \<Rightarrow> http_result" where
  "web_down k = Fails (Exn ConnectionError None)"

definition response_500 :: Response where
  "response_500 =
     \<lparr>status_code = 500, retry_after = None,
      soup = \<lparr>content_articles = None, archive_hrefs = None\<rparr>\<rparr>"

definition web_500 :: "nat \<Rightarrow> http_result" where
  "web_500 k = Got response_500"





text \<open>The same network, with a \<open>Retry-After\<close> value that \<open>time.sleep\<close> cannot take.\<close>

definition response_huge :: Response where
  "response_huge =
     \<lparr>status_code = 302, retry_after = Some ''100000000000000000000'',
      soup = \<lparr>content_articles = None, archive_hrefs = None\<rparr>\<rparr>"

definition web_huge :: "nat \<Rightarrow> http_result" where
  "web_huge k =
     (if k = 1 then Fails (Exn TooManyRedirects (Some response_huge))
      else ok_response (archive_page []))"

text \<open>A page with one article that has no time tag, and the post extracted from it.\<close>

definition undated_article :: Article where
  "undated_article =
     \<lparr>art_id = ''post-12'', bookmark = Some ''Hello'', entry_content = Some ''<div>Hi</div>'',
      entry_time = None\<rparr>"

definition undated_page :: Page where
  "undated_page = \<lparr>content_articles = Some [undated_article], archive_hrefs = None\<rparr>"

definition undated_post :: Post where
  "undated_post =
     \<lparr>post_id = ''post-12'', title = ''Hello'', content = ''<div>Hi</div>'', entry_date = [],
      content_html = ''<div>Hi</div>'', year = ''unknown''\<rparr>"

definition web_undated :: "string \<Rightarrow> nat \<Rightarrow> http_result" where
  "web_undated url k = ok_response undated_page"

text \<open>The same page, with an article id that has a \<open>/\<close> in it.\<close>

definition slash_page :: Page where
  "slash_page =
     \<lparr>content_articles = Some [undated_article\<lparr>art_id := ''a/b''\<rparr>], archive_hrefs = None\<rparr>"

definition web_slash :: "string \<Rightarrow> nat \<Rightarrow> http_result" where
  "web_slash url k = ok_response slash_page"

section \<open>Properties of update_stats\<close>

lemma sum_values_dict_incr:
  "sum_values (dict_incr d k) = sum_values d + (if k \<in> fst ` set d then 1 else 0)"
  by (induction d k rule: dict_incr.induct) (auto simp: sum_values_def)

lemma sum_values_count_year: "sum_values (count_year d y) = sum_values d + 1"
  by (simp add: count_year_def sum_values_dict_incr) (simp add: sum_values_def)

lemma map_of_dict_incr:
  "map_of (dict_incr d k) y =
     (if y = k then map_option (\<lambda>c. c + 1) (map_of d k) else map_of d y)"
  by (induction d k rule: dict_incr.induct) auto

lemma map_of_count_year_mono:
  "map_of d y = Some c \<Longrightarrow> \<exists>c'. map_of (count_year d k) y = Some c' \<and> c \<le> c'"
  by (auto simp: count_year_def map_of_dict_incr map_of_eq_None_iff)

lemma add_posts_sum:
  "sum_values (articles_per_year (add_posts s ps)) =
     sum_values (articles_per_year s) + int (length ps)"
  by (induction ps arbitrary: s) (simp_all add: add_post_def sum_values_count_year)

lemma add_posts_total: "total_articles (add_posts s ps) = total_articles s"
  by (induction ps arbitrary: s) (simp_all add: add_post_def)

lemma add_posts_articles:
  "articles (add_posts s ps) =
     articles s @ map (\<lambda>p. [(''date'', entry_date p), (''title'', title p)]) ps"
  by (induction ps arbitrary: s) (simp_all add: add_post_def)

lemma add_posts_mono:
  "map_of (articles_per_year s) y = Some c \<Longrightarrow>
   \<exists>c'. map_of (articles_per_year (add_posts s ps)) y = Some c' \<and> c \<le> c'"
proof (induction ps arbitrary: s c)
  case Nil
  then show ?case by simp
next
  case (Cons p ps)
  from map_of_count_year_mono [OF Cons.prems, of "year p"]
  obtain c1 where c1: "map_of (count_year (articles_per_year s) (year p)) y = Some c1"
    and le: "c \<le> c1" by blast
  have "map_of (articles_per_year (add_post s p)) y = Some c1"
    using c1 by (simp add: add_post_def)
  from Cons.IH [OF this] obtain c' where
    "map_of (articles_per_year (add_posts (add_post s p) ps)) y = Some c'" and "c1 \<le> c'"
    by blast
  with le show ?case by auto
qed

text \<open>
  C8. If \<open>total_articles\<close> equals the sum of the per-year counts and the length of
  \<open>articles\<close> before \<open>update_stats\<close>, then both equalities hold afterwards, for every
  list of posts. Nothing is removed or decremented: the old \<open>articles\<close> list is a prefix
  of the new one, every year that had a count still has one that is at least as large,
  and \<open>total_articles\<close> does not shrink.
\<close>

theorem update_stats_conservation:
  assumes "total_articles s = sum_values (articles_per_year s)"
    and "total_articles s = int (length (articles s))"
  shows "total_articles (update_stats s posts) =
           sum_values (articles_per_year (update_stats s posts))
       \<and> total_articles (update_stats s posts) = int (length (articles (update_stats s posts)))
       \<and> take (length (articles s)) (articles (update_stats s posts)) = articles s
       \<and> (\<forall>y c. map_of (articles_per_year s) y = Some c \<longrightarrow>
            (\<exists>c'. map_of (articles_per_year (update_stats s posts)) y = Some c' \<and> c \<le> c'))
       \<and> total_articles s \<le> total_articles (update_stats s posts)"
  using assms
  by (auto simp: update_stats_def Let_def add_posts_sum add_posts_total add_posts_articles
      dest: add_posts_mono)

theorem update_stats_conservation_witness:
  "total_articles stats_ex = sum_values (articles_per_year stats_ex)
   \<and> total_articles stats_ex = int (length (articles stats_ex))
   \<and> total_articles (update_stats stats_ex [post_ex]) = 2
   \<and> sum_values (articles_per_year (update_stats stats_ex [post_ex])) = 2
   \<and> length (articles (update_stats stats_ex [post_ex])) = 2"
proof -
  have h1: "total_articles stats_ex = sum_values (articles_per_year stats_ex)"
    by (simp add: stats_ex_def sum_values_def)
  have h2: "total_articles stats_ex = int (length (articles stats_ex))"
    by (simp add: stats_ex_def)
  have t: "total_articles (update_stats stats_ex [post_ex]) = 2"
    by (simp add: update_stats_def stats_ex_def add_post_def)
  show ?thesis
    using h1 h2 t update_stats_conservation [OF h1 h2, of "[post_ex]"] by simp
qed

section \<open>The list of URLs to crawl\<close>

lemma enqueue_link_crawled [simp]: "crawled_urls (enqueue_link lib l st) = crawled_urls st"
  by (simp add: enqueue_link_def Let_def)

lemma enqueue_link_errors [simp]: "errors_404 (enqueue_link lib l st) = errors_404 st"
  by (simp add: enqueue_link_def Let_def)

lemma enqueue_links_crawled [simp]: "crawled_urls (enqueue_links lib ls st) = crawled_urls st"
  by (induction ls arbitrary: st) simp_all

lemma enqueue_links_errors [simp]: "errors_404 (enqueue_links lib ls st) = errors_404 st"
  by (induction ls arbitrary: st) simp_all

lemma enqueue_link_new:
  "u \<in> set (urls_to_crawl (enqueue_link lib l st)) \<Longrightarrow>
   u \<in> set (urls_to_crawl st) \<or> (u = l \<and> extract_unique_part lib l \<notin> crawled_urls st)"
  by (auto simp: enqueue_link_def Let_def split: if_splits)

lemma enqueue_links_new:
  "u \<in> set (urls_to_crawl (enqueue_links lib ls st)) \<Longrightarrow>
   u \<in> set (urls_to_crawl st) \<or> (u \<in> set ls \<and> extract_unique_part lib u \<notin> crawled_urls st)"
proof (induction ls arbitrary: st)
  case Nil
  then show ?case by simp
next
  case (Cons l ls)
  from Cons.IH [of "enqueue_link lib l st"] Cons.prems
  have "u \<in> set (urls_to_crawl (enqueue_link lib l st))
        \<or> (u \<in> set ls \<and> extract_unique_part lib u \<notin> crawled_urls st)"
    by simp
  then show ?case
    using enqueue_link_new [of u lib l st] by auto
qed

lemma enqueue_link_visited:
  "extract_unique_part lib l \<in> crawled_urls st \<Longrightarrow> enqueue_link lib l st = st"
  by (simp add: enqueue_link_def)

lemma state_save_all [simp]: "state (save_all lib r) = state r"
  by (simp add: save_all_def Let_def split: prod.splits option.splits)

lemma stats_save_all [simp]: "stats (save_all lib r) = stats r"
  by (simp add: save_all_def Let_def split: prod.splits option.splits)

lemma state_on_not_found:
  "state (on_not_found u r) = (state r)\<lparr>errors_404 := errors_404 (state r) @ [u]\<rparr>"
  by (simp add: on_not_found_def Let_def)

lemma state_on_fetch_error:
  "state (on_fetch_error lib u r) = (state r)\<lparr>urls_to_crawl := urls_to_crawl (state r) @ [u]\<rparr>"
  by (simp add: on_fetch_error_def)

lemma state_on_document:
  "state (on_document lib k page r) = state r
   \<or> (\<exists>ls. set ls \<subseteq> set (extract_archive_links page)
         \<and> (state (on_document lib k page r) = enqueue_links lib ls (state r)
            \<or> state (on_document lib k page r)
               = (enqueue_links lib ls (state r))
                   \<lparr>crawled_urls := insert k (crawled_urls (state r))\<rparr>))"
proof (cases "extract_posts lib page")
  case (Inl e)
  then show ?thesis by (simp add: on_document_def)
next
  case (Inr posts)
  obtain d1 err where sv: "save_all_to_files lib posts (disk r) = (d1, err)"
    by (cases "save_all_to_files lib posts (disk r)")
  let ?ls = "takeWhile (\<lambda>link. \<not> urlparse_raises lib link) (extract_archive_links page)"
  have sub: "set ?ls \<subseteq> set (extract_archive_links page)"
    by (auto dest: set_takeWhileD)
  show ?thesis
  proof (cases err)
    case (Some e)
    with Inr sv show ?thesis by (simp add: on_document_def)
  next
    case None
    with Inr sv have
      "state (on_document lib k page r) = enqueue_links lib ?ls (state r)
       \<or> state (on_document lib k page r)
          = (enqueue_links lib ?ls (state r))\<lparr>crawled_urls := insert k (crawled_urls (state r))\<rparr>"
      by (simp add: on_document_def Let_def)
    with sub show ?thesis by blast
  qed
qed

lemma on_document_all_parsed:
  assumes "extract_posts lib page = Inr posts"
    and "snd (save_all_to_files lib posts (disk r)) = None"
    and "\<forall>l \<in> set (extract_archive_links page). \<not> urlparse_raises lib l"
  shows "on_document lib k page r
         = save_all lib
             (r\<lparr>state := (enqueue_links lib (extract_archive_links page) (state r))
                          \<lparr>crawled_urls := insert k (crawled_urls (state r))\<rparr>,
                stats := update_stats (stats r) posts,
                disk := fst (save_all_to_files lib posts (disk r))\<rparr>)"
proof -
  obtain d1 where sv: "save_all_to_files lib posts (disk r) = (d1, None)"
    using assms(2) by (cases "save_all_to_files lib posts (disk r)") simp
  have tw: "takeWhile (\<lambda>link. \<not> urlparse_raises lib link) (extract_archive_links page)
            = extract_archive_links page"
    using assms(3) by (simp add: takeWhile_eq_all_conv)
  from assms(1) sv show ?thesis
    by (simp add: on_document_def Let_def tw)
qed

lemma on_document_pending:
  assumes "v \<in> set (urls_to_crawl (state (on_document lib k page r)))"
  shows "v \<in> set (urls_to_crawl (state r)) \<or> extract_unique_part lib v \<notin> crawled_urls (state r)"
  using state_on_document [of lib k page r] assms
  by (auto dest: enqueue_links_new)

lemma on_document_crawled:
  "crawled_urls (state (on_document lib k page r)) \<subseteq> insert k (crawled_urls (state r))"
  using state_on_document [of lib k page r] by auto

lemma crawl_step_document:
  assumes "urls_to_crawl (state r) = u # rest"
    and "extract_unique_part lib u \<notin> crawled_urls (state r)"
    and "fst (fetch_page lib (web u)) = Inr (Some page)"
  shows "crawl_step lib web r
         = on_document lib (extract_unique_part lib u) page
             (r\<lparr>state := (state r)\<lparr>urls_to_crawl := rest\<rparr>\<rparr>)"
  using assms by (simp add: crawl_step_def)

lemma crawl_step_pending_old_keys:
  assumes "frontier_inv lib (state r)"
    and "v \<in> set (urls_to_crawl (state (crawl_step lib web r)))"
  shows "extract_unique_part lib v \<notin> crawled_urls (state r)"
proof (cases "urls_to_crawl (state r)")
  case Nil
  with assms show ?thesis by (simp add: crawl_step_def)
next
  case (Cons u rest)
  have old: "\<And>w. w \<in> set (u # rest) \<Longrightarrow> extract_unique_part lib w \<notin> crawled_urls (state r)"
    using assms(1) Cons by (auto simp: frontier_inv_def)
  show ?thesis
  proof (cases "extract_unique_part lib u \<in> crawled_urls (state r)")
    case True
    with assms(2) Cons old show ?thesis by (simp add: crawl_step_def)
  next
    case False
    show ?thesis
    proof (cases "fst (fetch_page lib (web u))")
      case (Inl e)
      with assms(2) Cons False old show ?thesis
        by (auto simp: crawl_step_def state_on_fetch_error)
    next
      case (Inr res)
      show ?thesis
      proof (cases res)
        case None
        with Inr assms(2) Cons False old show ?thesis
          by (auto simp: crawl_step_def state_on_not_found)
      next
        case (Some page)
        with Inr have "fst (fetch_page lib (web u)) = Inr (Some page)" by simp
        from crawl_step_document [where lib = lib and web = web, OF Cons False this] assms(2)
        have "v \<in> set (urls_to_crawl (state (on_document lib (extract_unique_part lib u) page
                  (r\<lparr>state := (state r)\<lparr>urls_to_crawl := rest\<rparr>\<rparr>))))"
          by simp
        from on_document_pending [OF this] old show ?thesis by auto
      qed
    qed
  qed
qed

lemmas sample_defs = sample_lib_def simple_query_def simple_parse_qs_def simple_pairs_def
  extract_unique_part_def

lemmas step_defs = crawl_step_def fetch_page_def fetch_attempt_def on_document_def on_not_found_def
  on_fetch_error_def save_all_def save_state_def save_stats_def save_dates_titles_def
  save_errors_404_def extract_posts_def extract_archive_links_def enqueue_link_def
  update_stats_def on_http_error_def fetch_retry_def fetch_stop_def stop_after_attempt_def
  is_RequestException_def is_HTTPError_def Let_def summary_lines_def save_to_files_def
  replace_char_def

text \<open>
  C1 at a concrete input. The URL \<open>http://blog/?m=201901\<close> is pending, its key
  \<open>201901\<close> is not among the crawled keys, and the same URL is offered to lines 333 to
  338 again. The test on line 336 looks for the key among the pending URLs themselves,
  not among their keys, so it does not find it and the URL is appended a second time.
\<close>

theorem enqueue_link_pending_duplicate:
  "extract_unique_part sample_lib ''http://blog/?m=201901'' = ''201901''
   \<and> urls_to_crawl
        (enqueue_link sample_lib ''http://blog/?m=201901''
           \<lparr>urls_to_crawl = [''http://blog/?m=201901''], crawled_urls = {}, errors_404 = []\<rparr>)
      = [''http://blog/?m=201901'', ''http://blog/?m=201901'']"
  by (simp add: enqueue_link_def sample_defs)

lemma crawl_step_crawled_same:
  assumes "urls_to_crawl (state r) = u # rest"
    and "extract_unique_part lib u \<in> crawled_urls (state r)
         \<or> \<not> is_document (fst (fetch_page lib (web u)))"
  shows "crawled_urls (state (crawl_step lib web r)) = crawled_urls (state r)"
  using assms
  by (auto simp: crawl_step_def Let_def is_document_def state_on_fetch_error state_on_not_found
      split: sum.splits option.splits)

lemma crawl_step_crawled_sub:
  assumes "urls_to_crawl (state r) = u # rest"
  shows "crawled_urls (state (crawl_step lib web r))
         \<subseteq> insert (extract_unique_part lib u) (crawled_urls (state r))"
proof (cases "extract_unique_part lib u \<notin> crawled_urls (state r)
              \<and> is_document (fst (fetch_page lib (web u)))")
  case True
  then obtain page where "fst (fetch_page lib (web u)) = Inr (Some page)"
    by (auto simp: is_document_def split: sum.splits option.splits)
  from crawl_step_document [where lib = lib and web = web, OF assms _ this] True
    on_document_crawled [of lib "extract_unique_part lib u" page
      "r\<lparr>state := (state r)\<lparr>urls_to_crawl := rest\<rparr>\<rparr>"]
  show ?thesis by simp
next
  case False
  then have "crawled_urls (state (crawl_step lib web r)) = crawled_urls (state r)"
    using crawl_step_crawled_same [where lib = lib and web = web, OF assms] by blast
  then show ?thesis by auto
qed

text \<open>
  C2, as the code has it. From a state in which no pending URL has a visited key, the
  step that discards a popped URL, the NotFound step and the FetchError step lead to
  such a state again. The step that processes a document enqueues the followup links
  before it marks the popped URL visited, so afterwards a pending URL may have a visited
  key, but only the key that this step has just marked.
\<close>

theorem crawl_step_frontier:
  assumes "frontier_inv lib (state r)"
  shows "case urls_to_crawl (state r) of
           [] \<Rightarrow> crawl_step lib web r = r
         | u # rest \<Rightarrow>
             if extract_unique_part lib u \<in> crawled_urls (state r)
                \<or> \<not> is_document (fst (fetch_page lib (web u)))
             then frontier_inv lib (state (crawl_step lib web r))
             else \<forall>v \<in> set (urls_to_crawl (state (crawl_step lib web r))).
                    extract_unique_part lib v \<in> crawled_urls (state (crawl_step lib web r))
                    \<longrightarrow> extract_unique_part lib v = extract_unique_part lib u"
proof (cases "urls_to_crawl (state r)")
  case Nil
  then show ?thesis by (simp add: crawl_step_def)
next
  case (Cons u rest)
  have old: "\<forall>v \<in> set (urls_to_crawl (state (crawl_step lib web r))).
               extract_unique_part lib v \<notin> crawled_urls (state r)"
    using crawl_step_pending_old_keys [OF assms] by blast
  show ?thesis
  proof (cases "extract_unique_part lib u \<in> crawled_urls (state r)
                \<or> \<not> is_document (fst (fetch_page lib (web u)))")
    case True
    from crawl_step_crawled_same [where web = web and lib = lib, OF Cons True]
    have "frontier_inv lib (state (crawl_step lib web r))"
      using old by (simp add: frontier_inv_def)
    with Cons True show ?thesis by simp
  next
    case False
    from crawl_step_crawled_sub [OF Cons, of lib web] old
    have "\<forall>v \<in> set (urls_to_crawl (state (crawl_step lib web r))).
            extract_unique_part lib v \<in> crawled_urls (state (crawl_step lib web r))
            \<longrightarrow> extract_unique_part lib v = extract_unique_part lib u"
      by auto
    with Cons False show ?thesis by simp
  qed
qed

theorem crawl_step_frontier_witness:
  "frontier_inv sample_lib (state run_two)
   \<and> frontier_inv sample_lib (state (crawl_step sample_lib web_two run_two))"
proof -
  have h: "frontier_inv sample_lib (state run_two)"
    by (simp add: frontier_inv_def run_two_def sample_defs)
  have p: "urls_to_crawl (state run_two) = [''http://blog/?m=201903'', ''http://blog/?m=201902'']"
    by (simp add: run_two_def)
  have k: "extract_unique_part sample_lib ''http://blog/?m=201903'' \<notin> crawled_urls (state run_two)"
    by (simp add: run_two_def sample_defs)
  have f: "\<not> is_document (fst (fetch_page sample_lib (web_two ''http://blog/?m=201903'')))"
    by (simp add: is_document_def web_two_def not_found_response_def step_defs)
  show ?thesis
    using h crawl_step_frontier [OF h, of web_two] p f by simp
qed

text \<open>
  The step that processes a document does not keep the invariant: nothing is crawled
  before the step, the page lists its own URL among the archive links, and after the
  step that URL is pending while its key is among the crawled keys.
\<close>

theorem frontier_counterexample:
  "crawled_urls (state run_self) = {}
   \<and> ''http://blog/?m=201901'' \<in> set (urls_to_crawl (state (crawl_step sample_lib web_self run_self)))
   \<and> extract_unique_part sample_lib ''http://blog/?m=201901''
       \<in> crawled_urls (state (crawl_step sample_lib web_self run_self))"
  by (simp add: run_self_def web_self_def ok_response_def archive_page_def empty_stats_def
      empty_disk_def step_defs sample_defs)

text \<open>
  C3, as the code has it. The step that receives a not-found result for the popped URL
  does not put the URL back into the list of URLs to crawl, appends it once to
  \<open>errors_404\<close>, and leaves the statistics, in memory and on disk, as they were. It does
  not mark the key of the URL as crawled.
\<close>

theorem not_found_step:
  assumes "urls_to_crawl (state r) = u # rest"
    and "extract_unique_part lib u \<notin> crawled_urls (state r)"
    and "fst (fetch_page lib (web u)) = Inr None"
  shows "urls_to_crawl (state (crawl_step lib web r)) = rest
       \<and> errors_404 (state (crawl_step lib web r)) = errors_404 (state r) @ [u]
       \<and> crawled_urls (state (crawl_step lib web r)) = crawled_urls (state r)
       \<and> stats (crawl_step lib web r) = stats r
       \<and> stats_file (disk (crawl_step lib web r)) = stats_file (disk r)
       \<and> raised (crawl_step lib web r) = raised r"
  using assms
  by (simp add: crawl_step_def Let_def on_not_found_def save_errors_404_def)

theorem not_found_step_witness:
  "urls_to_crawl (state run_two) = [''http://blog/?m=201903'', ''http://blog/?m=201902'']
   \<and> extract_unique_part sample_lib ''http://blog/?m=201903'' \<notin> crawled_urls (state run_two)
   \<and> fst (fetch_page sample_lib (web_two ''http://blog/?m=201903'')) = Inr None
   \<and> urls_to_crawl (state (crawl_step sample_lib web_two run_two)) = [''http://blog/?m=201902'']
   \<and> errors_404 (state (crawl_step sample_lib web_two run_two)) = [''http://blog/?m=201903'']
   \<and> stats (crawl_step sample_lib web_two run_two) = stats run_two"
proof -
  have p: "urls_to_crawl (state run_two) = [''http://blog/?m=201903'', ''http://blog/?m=201902'']"
    by (simp add: run_two_def)
  have k: "extract_unique_part sample_lib ''http://blog/?m=201903'' \<notin> crawled_urls (state run_two)"
    by (simp add: run_two_def sample_defs)
  have f: "fst (fetch_page sample_lib (web_two ''http://blog/?m=201903'')) = Inr None"
    by (simp add: web_two_def not_found_response_def step_defs)
  have e: "errors_404 (state run_two) = []"
    by (simp add: run_two_def)
  show ?thesis
    using p k f e not_found_step [where web = web_two and lib = sample_lib, OF p k f] by simp
qed

theorem not_found_twice_counterexample:
  "urls_to_crawl (state (crawl_step sample_lib web_two (crawl_step sample_lib web_two run_two)))
     = [''http://blog/?m=201903'']
   \<and> map_option (errors_404 \<circ> state) (crawl_loop sample_lib webs_two 3 0 run_two)
     = Some [''http://blog/?m=201903'', ''http://blog/?m=201903'']"
  by (simp add: run_two_def web_two_def webs_two_def ok_response_def not_found_response_def
      archive_page_def empty_stats_def empty_disk_def step_defs sample_defs numeral_3_eq_3)

text \<open>
  C4 at a concrete input: the state file lists one pending URL, and its fetch gives 404.
  After the step the URL has left the pending list and stands in \<open>errors_404\<close>, and the
  text file of 404 errors has been written, but the state file is as it was; the loop
  then ends, so the state file still lists the URL as pending.
\<close>

theorem not_found_state_file_stale:
  "state (crawl_step sample_lib web_two run_last)
     = \<lparr>urls_to_crawl = [], crawled_urls = {''201901''},
        errors_404 = [''http://blog/?m=201903'']\<rparr>
   \<and> state_file (disk (crawl_step sample_lib web_two run_last))
     = Some \<lparr>urls_to_crawl = [''http://blog/?m=201903''], crawled_urls = {''201901''},
             errors_404 = []\<rparr>
   \<and> errors_file (disk (crawl_step sample_lib web_two run_last))
     = Some (''http://blog/?m=201903'' @ [CHR 10])
   \<and> map_option (state_file \<circ> disk) (crawl_site sample_lib webs_two 1 seed_url disk_last)
     = Some (Some \<lparr>urls_to_crawl = [''http://blog/?m=201903''], crawled_urls = {''201901''},
                   errors_404 = []\<rparr>)"
  by (simp add: run_last_def disk_last_def state_last_def web_two_def webs_two_def
      not_found_response_def empty_stats_def empty_disk_def crawl_site_def load_state_def
      load_stats_def step_defs sample_defs)

lemma on_not_found_state_file: "state_file (disk (on_not_found u r)) = state_file (disk r)"
  by (simp add: on_not_found_def Let_def save_errors_404_def)

lemma crawl_step_discard:
  assumes "urls_to_crawl (state r) = u # rest"
    and "extract_unique_part lib u \<in> crawled_urls (state r)"
  shows "crawl_step lib web r = r\<lparr>state := (state r)\<lparr>urls_to_crawl := rest\<rparr>\<rparr>"
  using assms by (simp add: crawl_step_def)

lemma crawl_step_marks_crawled:
  assumes "urls_to_crawl (state r) = u # rest"
    and "extract_unique_part lib u \<notin> crawled_urls (state r)"
    and "fst (fetch_page lib (web u)) = Inr (Some page)"
    and "extract_posts lib page = Inr posts"
    and "snd (save_all_to_files lib posts (disk r)) = None"
    and "\<forall>l \<in> set (extract_archive_links page). \<not> urlparse_raises lib l"
  shows "extract_unique_part lib u \<in> crawled_urls (state (crawl_step lib web r))"
proof -
  let ?r1 = "r\<lparr>state := (state r)\<lparr>urls_to_crawl := rest\<rparr>\<rparr>"
  have "crawl_step lib web r = on_document lib (extract_unique_part lib u) page ?r1"
    using assms(1-3) by (simp add: crawl_step_def)
  moreover have "snd (save_all_to_files lib posts (disk ?r1)) = None"
    using assms(5) by simp
  ultimately show ?thesis
    using on_document_all_parsed [OF assms(4) _ assms(6), of ?r1 "extract_unique_part lib u"]
    by simp
qed

text \<open>
  C9. A URL that \<open>urlparse\<close> accepts and that has no \<open>m\<close> query parameter has the empty
  string as its key. Once the empty key is in \<open>crawled_urls\<close>, such a URL is not
  appended by the loop over the followup links, and is discarded when it is popped,
  with no fetch and no other change; on a resumed run whose list of URLs to crawl is
  empty, the start URL is seeded, discarded, and the loop ends with the state it
  loaded.
\<close>

theorem no_m_parameter_key:
  assumes "\<not> urlparse_raises lib url"
    and "parse_qs lib (urlparse_query lib url) ''m'' = None"
  shows "extract_unique_part lib url = []
       \<and> ([] \<in> crawled_urls st \<and> url \<notin> set (urls_to_crawl st)
          \<longrightarrow> url \<notin> set (urls_to_crawl (enqueue_links lib links st)))
       \<and> ([] \<in> crawled_urls (state r) \<and> urls_to_crawl (state r) = url # rest
          \<longrightarrow> crawl_step lib web r = r\<lparr>state := (state r)\<lparr>urls_to_crawl := rest\<rparr>\<rparr>)
       \<and> (state_file d = Some st0 \<and> urls_to_crawl st0 = [] \<and> [] \<in> crawled_urls st0
          \<longrightarrow> crawl_site lib webs (Suc fuel) url d
              = Some \<lparr>state = st0, stats = load_stats d, disk = d, raised = None\<rparr>)"
proof -
  have key: "extract_unique_part lib url = []"
    using assms(2) by (simp add: extract_unique_part_def)
  have links: "url \<notin> set (urls_to_crawl (enqueue_links lib links st))"
    if "[] \<in> crawled_urls st" "url \<notin> set (urls_to_crawl st)"
    using enqueue_links_new [of url lib links st] that key by auto
  have pop: "crawl_step lib web r = r\<lparr>state := (state r)\<lparr>urls_to_crawl := rest\<rparr>\<rparr>"
    if "[] \<in> crawled_urls (state r)" "urls_to_crawl (state r) = url # rest" for r rest web
    using crawl_step_discard [where lib = lib and web = web, OF that(2)] that(1) key by simp
  have resumed: "crawl_site lib webs (Suc fuel) url d
                 = Some \<lparr>state = st0, stats = load_stats d, disk = d, raised = None\<rparr>"
    if "state_file d = Some st0" "urls_to_crawl st0 = []" "[] \<in> crawled_urls st0"
  proof -
    let ?r = "\<lparr>state = st0\<lparr>urls_to_crawl := [url]\<rparr>, stats = load_stats d, disk = d, raised = None\<rparr>"
    have "crawl_step lib (webs 0) ?r = ?r\<lparr>state := (state ?r)\<lparr>urls_to_crawl := []\<rparr>\<rparr>"
      by (rule pop) (simp_all add: that)
    moreover have "st0\<lparr>urls_to_crawl := []\<rparr> = st0"
      using that(2) by simp
    ultimately have "crawl_step lib (webs 0) ?r
                     = \<lparr>state = st0, stats = load_stats d, disk = d, raised = None\<rparr>"
      by simp
    then show ?thesis
      using that by (cases fuel) (simp_all add: crawl_site_def load_state_def Let_def)
  qed
  from key links pop resumed show ?thesis by blast
qed

theorem no_m_parameter_key_witness:
  "\<not> urlparse_raises sample_lib seed_url
   \<and> parse_qs sample_lib (urlparse_query sample_lib seed_url) ''m'' = None
   \<and> extract_unique_part sample_lib seed_url = []
   \<and> crawl_site sample_lib webs_self 1 seed_url disk_resumed
     = Some \<lparr>state = state_resumed, stats = load_stats disk_resumed, disk = disk_resumed,
             raised = None\<rparr>"
proof -
  have a: "\<not> urlparse_raises sample_lib seed_url"
    by (simp add: seed_url_def sample_lib_def)
  have h: "parse_qs sample_lib (urlparse_query sample_lib seed_url) ''m'' = None"
    by (simp add: seed_url_def sample_defs)
  have d: "state_file disk_resumed = Some state_resumed \<and> urls_to_crawl state_resumed = []
           \<and> [] \<in> crawled_urls state_resumed"
    by (simp add: disk_resumed_def state_resumed_def empty_disk_def)
  show ?thesis
    using a h d no_m_parameter_key [OF a h, where ?st0.0 = state_resumed and d = disk_resumed
        and webs = webs_self and fuel = 0]
    by simp
qed

section \<open>Properties of fetch_page\<close>

declare fetch_page_from.simps [simp del]

lemmas fetch_defs = fetch_page_def fetch_page_from.simps fetch_attempt_def on_http_error_def
  fetch_retry_def fetch_stop_def stop_after_attempt_def is_RequestException_def is_HTTPError_def
  wait_if_retry_after_def sleep_for_def sleep_max_def fetch_wait_def wait_exponential_def Let_def


lemma attempts_append: "attempts (xs @ ys) = attempts xs @ attempts ys"
  by (induction xs rule: attempts.induct) simp_all

lemma slept_sleeps:
  assumes "wait_if_retry_after lib e = Inr slept"
  shows "slept = [] \<or> (\<exists>d. slept = [Sleep d])"
  using assms
  by (auto simp: wait_if_retry_after_def sleep_for_def split: if_splits option.splits)

lemma slept_no_attempt:
  assumes "wait_if_retry_after lib e = Inr slept"
  shows "attempts slept = []" and "Attempt k \<notin> set slept"
  using slept_sleeps [OF assms] by auto

lemma fetch_page_from_retry:
  assumes "fetch_attempt (web k) = Inl e" and "fetch_retry e" and "\<not> fetch_stop k"
    and "wait_if_retry_after lib e = Inr slept"
  shows "fetch_page_from lib web k
         = (fst (fetch_page_from lib web (Suc k)),
            Attempt k # slept @ Sleep (fetch_wait k) # snd (fetch_page_from lib web (Suc k)))"
  using assms
  by (subst fetch_page_from.simps) (simp add: Let_def split: prod.splits)

lemma fetch_page_from_final:
  assumes "fetch_attempt (web k) = Inr v
           \<or> (\<exists>e. fetch_attempt (web k) = Inl e
                 \<and> (\<not> fetch_retry e \<or> fetch_stop k \<or> (\<exists>err. wait_if_retry_after lib e = Inl err)))"
  shows "snd (fetch_page_from lib web k) = [Attempt k]"
  using assms
  by (subst fetch_page_from.simps) (auto simp: Let_def split: prod.splits sum.splits)

lemma fetch_page_from_cases:
  obtains (final) "snd (fetch_page_from lib web k) = [Attempt k]"
  | (retry) e slept where "fetch_attempt (web k) = Inl e" "fetch_retry e" "\<not> fetch_stop k"
      "wait_if_retry_after lib e = Inr slept"
      "snd (fetch_page_from lib web k)
       = Attempt k # slept @ Sleep (fetch_wait k) # snd (fetch_page_from lib web (Suc k))"
proof (cases "fetch_attempt (web k)")
  case (Inr v)
  then show ?thesis using final fetch_page_from_final [of web k v lib] by blast
next
  case (Inl e)
  show ?thesis
  proof (cases "fetch_retry e \<and> \<not> fetch_stop k")
    case False
    with Inl show ?thesis using final fetch_page_from_final [of web k _ lib] by blast
  next
    case True
    show ?thesis
    proof (cases "wait_if_retry_after lib e")
      case (Inl err)
      with \<open>fetch_attempt (web k) = Inl e\<close> show ?thesis
        using final fetch_page_from_final [of web k _ lib] by blast
    next
      case (Inr slept)
      with \<open>fetch_attempt (web k) = Inl e\<close> True show ?thesis
        using retry fetch_page_from_retry [of web k e lib slept] by simp
    qed
  qed
qed

lemma trace_head: "\<exists>evs. snd (fetch_page_from lib web k) = Attempt k # evs"
  by (cases rule: fetch_page_from_cases [of lib web k]) auto

lemma attempts_bound:
  "length (attempts (snd (fetch_page_from lib web k))) \<le> max 1 (6 - k)"
proof (induction "5 - k" arbitrary: k)
  case 0
  then have "fetch_stop k" by (simp add: fetch_stop_def stop_after_attempt_def)
  then show ?case
    by (cases rule: fetch_page_from_cases [of lib web k]) auto
next
  case (Suc n)
  show ?case
  proof (cases rule: fetch_page_from_cases [of lib web k])
    case final
    then show ?thesis by simp
  next
    case (retry e slept)
    from Suc.hyps(2) have "n = 5 - Suc k" by simp
    from Suc.hyps(1) [OF this]
    have "length (attempts (snd (fetch_page_from lib web (Suc k)))) \<le> max 1 (6 - Suc k)" .
    with retry(5) slept_no_attempt(1) [OF retry(4)] Suc.hyps(2) show ?thesis
      by (simp add: attempts_append)
  qed
qed

lemma attempt_numbers_ge:
  "Attempt j \<in> set (snd (fetch_page_from lib web k)) \<Longrightarrow> k \<le> j"
proof (induction "5 - k" arbitrary: k)
  case 0
  then have "fetch_stop k" by (simp add: fetch_stop_def stop_after_attempt_def)
  with 0 show ?case
    by (cases rule: fetch_page_from_cases [of lib web k]) auto
next
  case (Suc n)
  show ?case
  proof (cases rule: fetch_page_from_cases [of lib web k])
    case final
    with Suc.prems show ?thesis by simp
  next
    case (retry e slept)
    from Suc.hyps(2) have n: "n = 5 - Suc k" by simp
    from Suc.prems retry(5) slept_no_attempt(2) [OF retry(4), of j]
    have "j = k \<or> Attempt j \<in> set (snd (fetch_page_from lib web (Suc k)))" by auto
    then show ?thesis using Suc.hyps(1) [OF n] by auto
  qed
qed

lemma retry_preceded_by_wait:
  "Attempt (Suc j) \<in> set (snd (fetch_page_from lib web k)) \<Longrightarrow> k \<le> j \<Longrightarrow>
   \<exists>pre post. snd (fetch_page_from lib web k) = pre @ Sleep (fetch_wait j) # Attempt (Suc j) # post"
proof (induction "5 - k" arbitrary: k)
  case 0
  then have "fetch_stop k" by (simp add: fetch_stop_def stop_after_attempt_def)
  with 0 show ?case
    by (cases rule: fetch_page_from_cases [of lib web k]) auto
next
  case (Suc n)
  show ?case
  proof (cases rule: fetch_page_from_cases [of lib web k])
    case final
    with Suc.prems show ?thesis by simp
  next
    case (retry e slept)
    from Suc.hyps(2) have n: "n = 5 - Suc k" by simp
    from Suc.prems retry(5) slept_no_attempt(2) [OF retry(4), of "Suc j"]
    have inr: "Attempt (Suc j) \<in> set (snd (fetch_page_from lib web (Suc k)))" by auto
    show ?thesis
    proof (cases "j = k")
      case True
      from trace_head [of lib web "Suc k"] obtain evs where
        "snd (fetch_page_from lib web (Suc k)) = Attempt (Suc k) # evs" by blast
      with retry(5) True
      have "snd (fetch_page_from lib web k)
            = (Attempt k # slept) @ Sleep (fetch_wait j) # Attempt (Suc j) # evs" by simp
      then show ?thesis by blast
    next
      case False
      with Suc.prems have "Suc k \<le> j" by simp
      from Suc.hyps(1) [OF n inr this] obtain pre post where
        "snd (fetch_page_from lib web (Suc k)) = pre @ Sleep (fetch_wait j) # Attempt (Suc j) # post"
        by blast
      with retry(5)
      have "snd (fetch_page_from lib web k)
            = (Attempt k # slept @ Sleep (fetch_wait k) # pre)
                @ Sleep (fetch_wait j) # Attempt (Suc j) # post" by simp
      then show ?thesis by blast
    qed
  qed
qed

lemma fetch_wait_formula: "fetch_wait k = max 30 (min (5 * 2 ^ (k - 1)) 300)"
  by (simp add: fetch_wait_def wait_exponential_def)

lemma fetch_wait_values:
  "fetch_wait 1 = 30" "fetch_wait 2 = 30" "fetch_wait 3 = 30" "fetch_wait 4 = 40"
  by (simp_all add: fetch_wait_def wait_exponential_def)

text \<open>
  C5, as the code has it. The retry predicate accepts the exceptions of class
  RequestException that are not of class HTTPError. A response with an error status
  other than 404 makes \<open>raise_for_status\<close> raise HTTPError, which leaves \<open>fetch_page\<close>
  after the first attempt, with no wait and no second attempt. A connection failure or
  a timeout (an exception that carries no response) is followed by the computed wait
  and a second attempt.
\<close>

theorem fetch_page_retried_classes:
  "(fetch_retry e \<longleftrightarrow> cls e \<in> {ConnectionError, Timeout, TooManyRedirects, RequestException})
   \<and> (web 1 = Got resp \<and> 400 \<le> status_code resp \<and> status_code resp < 600
        \<and> status_code resp \<noteq> 404
      \<longrightarrow> fetch_page lib web = (Inl (Exn HTTPError (Some resp)), [Attempt 1]))
   \<and> (web 1 = Fails (Exn c None) \<and> (c = ConnectionError \<or> c = Timeout)
      \<longrightarrow> (\<exists>evs. snd (fetch_page lib web) = Attempt 1 # Sleep (fetch_wait 1) # Attempt 2 # evs))"
proof -
  have a: "fetch_retry e \<longleftrightarrow> cls e \<in> {ConnectionError, Timeout, TooManyRedirects, RequestException}"
    by (auto simp: fetch_retry_def is_RequestException_def is_HTTPError_def)
  have b: "fetch_page lib web = (Inl (Exn HTTPError (Some resp)), [Attempt 1])"
    if "web 1 = Got resp" "400 \<le> status_code resp" "status_code resp < 600"
      "status_code resp \<noteq> 404"
    using that
    by (simp add: fetch_page_def fetch_page_from.simps [of lib web "Suc 0"] fetch_attempt_def
        on_http_error_def fetch_retry_def is_HTTPError_def)
  have c: "\<exists>evs. snd (fetch_page lib web) = Attempt 1 # Sleep (fetch_wait 1) # Attempt 2 # evs"
    if w: "web 1 = Fails (Exn c None)" and cl: "c = ConnectionError \<or> c = Timeout"
  proof -
    have 1: "fetch_attempt (web 1) = Inl (Exn c None)"
      using w cl by (auto simp: fetch_attempt_def is_HTTPError_def)
    have 2: "fetch_retry (Exn c None)"
      using cl by (auto simp: fetch_retry_def is_RequestException_def is_HTTPError_def)
    have 3: "\<not> fetch_stop 1"
      by (simp add: fetch_stop_def stop_after_attempt_def)
    have 4: "wait_if_retry_after lib (Exn c None) = Inr []"
      by (simp add: wait_if_retry_after_def)
    from trace_head [of lib web "Suc 1"] obtain evs where
      "snd (fetch_page_from lib web (Suc 1)) = Attempt 2 # evs" by auto
    with fetch_page_from_retry [where web = web and k = 1, OF 1 2 3 4] show ?thesis
      by (simp add: fetch_page_def)
  qed
  from a b c show ?thesis by blast
qed

theorem fetch_page_retried_classes_witness:
  "web_down 1 = Fails (Exn ConnectionError None)
   \<and> (\<exists>evs. snd (fetch_page sample_lib web_down)
              = Attempt 1 # Sleep (fetch_wait 1) # Attempt 2 # evs)
   \<and> fetch_page sample_lib web_500
     = (Inl (Exn HTTPError (Some response_500)), [Attempt 1])"
proof -
  have h: "web_down 1 = Fails (Exn ConnectionError None)"
    by (simp add: web_down_def)
  have s: "web_500 1 = Got response_500 \<and> 400 \<le> status_code response_500
           \<and> status_code response_500 < 600 \<and> status_code response_500 \<noteq> 404"
    by (simp add: web_500_def response_500_def)
  show ?thesis
    using h s
      fetch_page_retried_classes [where web = web_down and c = ConnectionError and lib = sample_lib]
      fetch_page_retried_classes [where web = web_500 and resp = response_500
        and lib = sample_lib]
    by simp
qed

theorem http_500_not_retried_counterexample:
  "fetch_page sample_lib web_500
   = (Inl (Exn HTTPError (Some response_500)), [Attempt 1])"
  by (simp add: web_500_def response_500_def fetch_defs)




text \<open>
  A header value beyond what \<open>time.sleep\<close> accepts: the OverflowError of the hook
  leaves \<open>fetch_page\<close> after the first attempt.
\<close>

lemma retry_after_overflow_example:
  "fetch_page sample_lib web_huge = (Inl (Exn OverflowError None), [Attempt 1])"
  by (simp add: web_huge_def response_huge_def sample_lib_def fetch_defs)

text \<open>
  C7, as the code has it. \<open>fetch_page\<close> makes at most 5 attempts and starts with an
  attempt, not with a wait. The wait that tenacity computes after the failed attempt
  \<open>k\<close> is \<open>5 * 2 ** (k - 1)\<close> seconds, raised to at least 30 and cut at 300: 30, 30, 30
  and 40 seconds before the second, third, fourth and fifth attempt. Every attempt
  after the first directly follows the computed wait of the attempt before it.
\<close>

theorem fetch_page_schedule:
  "length (attempts (snd (fetch_page lib web))) \<le> 5
   \<and> (\<exists>evs. snd (fetch_page lib web) = Attempt 1 # evs)
   \<and> fetch_wait k = max 30 (min (5 * 2 ^ (k - 1)) 300)
   \<and> fetch_wait 1 = 30 \<and> fetch_wait 2 = 30 \<and> fetch_wait 3 = 30 \<and> fetch_wait 4 = 40
   \<and> (1 \<le> j \<and> Attempt (Suc j) \<in> set (snd (fetch_page lib web))
      \<longrightarrow> (\<exists>pre post. snd (fetch_page lib web)
                         = pre @ Sleep (fetch_wait j) # Attempt (Suc j) # post))"
  using attempts_bound [of lib web 1] trace_head [of lib web 1]
    retry_preceded_by_wait [of j lib web 1]
  by (simp add: fetch_page_def fetch_wait_formula fetch_wait_values)

theorem fetch_page_schedule_witness:
  "1 \<le> (4::nat) \<and> Attempt (Suc 4) \<in> set (snd (fetch_page sample_lib web_down))
   \<and> (\<exists>pre post. snd (fetch_page sample_lib web_down)
                    = pre @ Sleep (fetch_wait 4) # Attempt (Suc 4) # post)
   \<and> length (attempts (snd (fetch_page sample_lib web_down))) \<le> 5"
proof -
  have h: "1 \<le> (4::nat) \<and> Attempt (Suc 4) \<in> set (snd (fetch_page sample_lib web_down))"
    by (simp add: web_down_def fetch_defs)
  from h fetch_page_schedule [where lib = sample_lib and web = web_down and j = 4 and k = 1]
  show ?thesis by blast
qed

theorem backoff_schedule_counterexample:
  "snd (fetch_page sample_lib web_down)
   = [Attempt 1, Sleep 30, Attempt 2, Sleep 30, Attempt 3, Sleep 30, Attempt 4, Sleep 40,
      Attempt 5]"
  by (simp add: web_down_def fetch_defs)

section \<open>The report of dates and titles\<close>

lemma article_lines_raises:
  assumes "a \<in> set as" and "map_of a ''date'' = Some d" and "fromisoformat lib d = None"
  shows "\<exists>e. snd (article_lines lib as) = Some e"
  using assms
proof (induction as)
  case Nil
  then show ?case by simp
next
  case (Cons b bs)
  show ?case
  proof (cases "a = b")
    case True
    with Cons.prems show ?thesis by simp
  next
    case False
    with Cons have "\<exists>e. snd (article_lines lib bs) = Some e" by simp
    then show ?thesis
      by (auto split: option.splits prod.splits)
  qed
qed

lemma save_dates_titles_raises:
  assumes "a \<in> set (articles s)" and "map_of a ''date'' = Some d" and "fromisoformat lib d = None"
  shows "\<exists>e. snd (save_dates_titles lib s dk) = Some e"
  using article_lines_raises [OF assms]
  by (auto simp: save_dates_titles_def split: prod.splits)

lemma save_all_raises:
  assumes "a \<in> set (articles (stats r))" and "map_of a ''date'' = Some d"
    and "fromisoformat lib d = None"
  shows "(\<exists>e. raised (save_all lib r) = Some e)
       \<and> state_file (disk (save_all lib r)) = Some (state r)
       \<and> stats_file (disk (save_all lib r)) = Some (stats r)"
  using save_dates_titles_raises [OF assms, of "save_stats (stats r) (save_state (state r) (disk r))"]
  by (auto simp: save_all_def Let_def save_dates_titles_def save_stats_def save_state_def
      split: prod.splits)

lemma article_post_undated:
  assumes "entry_time a = None"
  shows "\<exists>p. article_post lib a = Inr p \<and> entry_date p = [] \<and> year p = ''unknown''"
  using assms by (simp add: article_post_def article_date_def Let_def)

lemma article_posts_undated:
  assumes "article_posts lib arts = Inr posts" and "a \<in> set arts" and "entry_time a = None"
  shows "\<exists>p \<in> set posts. entry_date p = [] \<and> year p = ''unknown''"
  using assms
proof (induction arts arbitrary: posts)
  case Nil
  then show ?case by simp
next
  case (Cons b bs)
  from Cons.prems(1) obtain p ps where p: "article_post lib b = Inr p"
    and ps: "article_posts lib bs = Inr ps" and posts: "posts = p # ps"
    by (auto split: sum.splits)
  show ?case
  proof (cases "a = b")
    case True
    with article_post_undated [OF Cons.prems(3), of lib] p posts show ?thesis by auto
  next
    case False
    with Cons.prems(2) have "a \<in> set bs" by simp
    from Cons.IH [OF ps this Cons.prems(3)] posts show ?thesis by auto
  qed
qed

lemma on_document_raises:
  assumes "extract_posts lib page = Inr posts"
    and "snd (save_all_to_files lib posts (disk r)) = None"
    and "\<forall>l \<in> set (extract_archive_links page). \<not> urlparse_raises lib l"
    and "p \<in> set posts"
    and "fromisoformat lib (entry_date p) = None"
  shows "(\<exists>e. raised (on_document lib k page r) = Some e)
       \<and> (\<exists>s'. stats_file (disk (on_document lib k page r)) = Some s'
              \<and> [(''date'', entry_date p), (''title'', title p)] \<in> set (articles s'))"
proof -
  let ?a = "[(''date'', entry_date p), (''title'', title p)]"
  let ?r = "r\<lparr>state := (enqueue_links lib (extract_archive_links page) (state r))
                  \<lparr>crawled_urls := insert k (crawled_urls (state r))\<rparr>,
             stats := update_stats (stats r) posts,
             disk := fst (save_all_to_files lib posts (disk r))\<rparr>"
  have od: "on_document lib k page r = save_all lib ?r"
    using on_document_all_parsed [OF assms(1-3)] .
  have mem: "?a \<in> set (articles (stats ?r))"
    using assms(4) by (auto simp: update_stats_def Let_def add_posts_articles)
  have d: "map_of ?a ''date'' = Some (entry_date p)" by simp
  from save_all_raises [OF mem d assms(5)] od mem show ?thesis by auto
qed

text \<open>
  C10. \<open>save_dates_titles\<close> raises when a record of \<open>stats.articles\<close> has a date that
  \<open>datetime.fromisoformat\<close> rejects. \<open>extract_posts\<close> gives the empty date to a post
  whose article has no time tag, and \<open>fromisoformat\<close> rejects the empty string. So an
  iteration that processes a document with such a post and reaches the saves (the
  files of all posts of the page could be opened, and \<open>urlparse\<close> accepts the popped
  URL and every followup link) ends in an exception, raised after \<open>save_stats\<close> has
  written statistics that contain the record of the post.
\<close>

theorem undated_post_breaks_report:
  assumes "fromisoformat lib [] = None"
  shows "(a \<in> set (articles s) \<and> map_of a ''date'' = Some d \<and> fromisoformat lib d = None
          \<longrightarrow> (\<exists>e. snd (save_dates_titles lib s dk) = Some e))
       \<and> (content_articles page = Some arts \<and> art \<in> set arts \<and> entry_time art = None
            \<and> extract_posts lib page = Inr posts
          \<longrightarrow> (\<exists>p \<in> set posts. entry_date p = []))
       \<and> (urls_to_crawl (state r) = u # rest
            \<and> \<not> urlparse_raises lib u
            \<and> extract_unique_part lib u \<notin> crawled_urls (state r)
            \<and> fst (fetch_page lib (web u)) = Inr (Some page)
            \<and> extract_posts lib page = Inr posts
            \<and> snd (save_all_to_files lib posts (disk r)) = None
            \<and> (\<forall>l \<in> set (extract_archive_links page). \<not> urlparse_raises lib l)
            \<and> p \<in> set posts \<and> entry_date p = []
          \<longrightarrow> (\<exists>e. raised (crawl_step lib web r) = Some e)
              \<and> (\<exists>s'. stats_file (disk (crawl_step lib web r)) = Some s'
                     \<and> [(''date'', []), (''title'', title p)] \<in> set (articles s')))"
proof -
  have 1: "\<exists>e. snd (save_dates_titles lib s dk) = Some e"
    if "a \<in> set (articles s)" "map_of a ''date'' = Some d" "fromisoformat lib d = None"
    using save_dates_titles_raises [OF that] .
  have 2: "\<exists>p \<in> set posts. entry_date p = []"
    if "content_articles page = Some arts" "art \<in> set arts" "entry_time art = None"
      "extract_posts lib page = Inr posts"
    using article_posts_undated [of lib arts posts art] that
    by (auto simp: extract_posts_def)
  have 3: "(\<exists>e. raised (crawl_step lib web r) = Some e)
           \<and> (\<exists>s'. stats_file (disk (crawl_step lib web r)) = Some s'
                  \<and> [(''date'', []), (''title'', title p)] \<in> set (articles s'))"
    if "urls_to_crawl (state r) = u # rest" "extract_unique_part lib u \<notin> crawled_urls (state r)"
      "fst (fetch_page lib (web u)) = Inr (Some page)"
      "extract_posts lib page = Inr posts"
      "snd (save_all_to_files lib posts (disk r)) = None"
      "\<forall>l \<in> set (extract_archive_links page). \<not> urlparse_raises lib l"
      "p \<in> set posts" "entry_date p = []"
  proof -
    let ?r1 = "r\<lparr>state := (state r)\<lparr>urls_to_crawl := rest\<rparr>\<rparr>"
    have iso: "fromisoformat lib (entry_date p) = None"
      using assms that(8) by simp
    have files: "snd (save_all_to_files lib posts (disk ?r1)) = None"
      using that(5) by simp
    from on_document_raises [OF that(4) files that(6,7) iso, of "extract_unique_part lib u"]
      crawl_step_document [where lib = lib and web = web, OF that(1-3)] that(8)
    show ?thesis by simp
  qed
  from 1 2 3 show ?thesis by blast
qed

theorem undated_post_breaks_report_witness:
  "fromisoformat sample_lib [] = None
   \<and> urls_to_crawl (state run_self) = [''http://blog/?m=201901'']
   \<and> \<not> urlparse_raises sample_lib ''http://blog/?m=201901''
   \<and> extract_unique_part sample_lib ''http://blog/?m=201901'' \<notin> crawled_urls (state run_self)
   \<and> fst (fetch_page sample_lib (web_undated ''http://blog/?m=201901'')) = Inr (Some undated_page)
   \<and> extract_posts sample_lib undated_page = Inr [undated_post]
   \<and> snd (save_all_to_files sample_lib [undated_post] (disk run_self)) = None
   \<and> extract_archive_links undated_page = []
   \<and> entry_date undated_post = []
   \<and> (\<exists>e. raised (crawl_step sample_lib web_undated run_self) = Some e)
   \<and> (\<exists>s'. stats_file (disk (crawl_step sample_lib web_undated run_self)) = Some s'
          \<and> [(''date'', []), (''title'', ''Hello'')] \<in> set (articles s'))"
proof -
  have h: "fromisoformat sample_lib [] = None"
    by (simp add: sample_lib_def)
  have 1: "urls_to_crawl (state run_self) = [''http://blog/?m=201901'']"
    by (simp add: run_self_def)
  have 2: "extract_unique_part sample_lib ''http://blog/?m=201901'' \<notin> crawled_urls (state run_self)"
    by (simp add: run_self_def)
  have 3: "fst (fetch_page sample_lib (web_undated ''http://blog/?m=201901''))
           = Inr (Some undated_page)"
    by (simp add: web_undated_def ok_response_def fetch_page_def fetch_page_from.simps
        fetch_attempt_def)
  have 4: "extract_posts sample_lib undated_page = Inr [undated_post]"
    by (simp add: extract_posts_def undated_page_def undated_article_def undated_post_def
        article_post_def article_date_def sample_lib_def Let_def)
  have 5: "undated_post \<in> set [undated_post] \<and> entry_date undated_post = []
           \<and> title undated_post = ''Hello''"
    by (simp add: undated_post_def)
  have 6: "snd (save_all_to_files sample_lib [undated_post] (disk run_self)) = None"
    by (simp add: undated_post_def save_to_files_def replace_char_def sample_lib_def Let_def)
  have 7: "extract_archive_links undated_page = []"
    by (simp add: extract_archive_links_def undated_page_def)
  have 8: "\<not> urlparse_raises sample_lib ''http://blog/?m=201901''"
    by (simp add: sample_lib_def)
  from undated_post_breaks_report [OF h, where r = run_self and web = web_undated
      and u = "''http://blog/?m=201901''" and rest = "[]" and page = undated_page
      and posts = "[undated_post]" and p = undated_post] 1 2 3 4 5 6 7 8
  have "(\<exists>e. raised (crawl_step sample_lib web_undated run_self) = Some e)
        \<and> (\<exists>s'. stats_file (disk (crawl_step sample_lib web_undated run_self)) = Some s'
               \<and> [(''date'', []), (''title'', ''Hello'')] \<in> set (articles s'))"
    by simp
  with h 1 2 3 4 5 6 7 8 show ?thesis by simp
qed

lemma undated_post_step_example: "raised (crawl_step sample_lib web_undated run_self) = Some ValueError
  \<and> stats_file (disk (crawl_step sample_lib web_undated run_self))
    = Some \<lparr>articles_per_year = [(''unknown'', 1)], total_articles = 1,
            articles = [[(''date'', []), (''title'', ''Hello'')]]\<rparr>"
  by (simp add: run_self_def web_undated_def undated_page_def undated_article_def ok_response_def
      empty_stats_def empty_disk_def step_defs fetch_page_from.simps article_post_def
      article_date_def add_post_def count_year_def sample_defs)

text \<open>
  When the file of a post cannot be opened, the iteration ends earlier: the OSError
  leaves \<open>crawl_site\<close> before the statistics are updated, before the key is marked as
  crawled and before anything is saved.
\<close>

lemma post_file_error_example:
  "raised (crawl_step sample_lib web_slash run_self) = Some OSError
   \<and> stats (crawl_step sample_lib web_slash run_self) = empty_stats
   \<and> crawled_urls (state (crawl_step sample_lib web_slash run_self)) = {}
   \<and> stats_file (disk (crawl_step sample_lib web_slash run_self)) = None"
  by (simp add: run_self_def web_slash_def slash_page_def undated_article_def ok_response_def
      empty_stats_def empty_disk_def step_defs fetch_page_from.simps article_post_def
      article_date_def sample_defs)

end
